theory Spec2Isabelle
  imports Complex_Main "HOL-Library.Sublist"
begin

section \<open>Image to PDF: the image record store\<close>

text \<open>
  A shallow embedding of \<^verbatim>\<open>src/components/ImageToPDF.jsx\<close>. The React component keeps the
  ordered list \<^verbatim>\<open>images\<close>, the \<^verbatim>\<open>filename\<close> and the flag \<^verbatim>\<open>isGenerating\<close>; every handler
  replaces the list through a pure updater \<^verbatim>\<open>prev => ...\<close>, which is modelled as a function
  from the previous list to the next one.
\<close>

subsection \<open>Data\<close>

text \<open>A browser \<^verbatim>\<open>File\<close>, as far as the component reads it: \<^verbatim>\<open>file.type\<close> and \<^verbatim>\<open>file.name\<close>.\<close>

record js_file =
  file_type :: string
  file_name :: string

text \<open>
  One element of \<^verbatim>\<open>images\<close>: \<^verbatim>\<open>{ id, file, url, rotation, name }\<close>. The field \<^verbatim>\<open>id\<close> is
  written \<open>id'\<close> (\<open>id\<close> is the identity function of HOL) and \<^verbatim>\<open>file\<close> is written \<open>file'\<close>. \<^verbatim>\<open>rotation\<close> is a JavaScript
  number that only ever holds integers, hence an \<open>int\<close>.
\<close>

record image_entry =
  id' :: string
  file' :: js_file
  url :: string
  rotation :: int
  name :: string

subsection \<open>JavaScript primitives\<close>

text \<open>
  The remainder operator \<^verbatim>\<open>%\<close> on integers: the result takes the sign of the dividend.
  (The divisor is the constant 360 in this program.)
\<close>

definition js_rem :: "int \<Rightarrow> int \<Rightarrow> int" where
  "js_rem a b = sgn a * (\<bar>a\<bar> mod \<bar>b\<bar>)"

text \<open>
  A JavaScript array may hold \<^verbatim>\<open>undefined\<close>: reading past the end gives \<^verbatim>\<open>undefined\<close>, and
  writing past the end extends the array, the skipped positions reading as \<^verbatim>\<open>undefined\<close>.
  Such an array is an \<open>option list\<close>, \<open>None\<close> for \<^verbatim>\<open>undefined\<close>.
\<close>

definition js_get :: "'a option list \<Rightarrow> nat \<Rightarrow> 'a option" where
  "js_get xs i = (if i < length xs then xs ! i else None)"

definition js_set :: "'a option list \<Rightarrow> nat \<Rightarrow> 'a option \<Rightarrow> 'a option list" where
  "js_set xs i v =
     (if i < length xs then xs[i := v]
      else xs @ replicate (i - length xs) None @ [v])"

subsection \<open>Handlers of the list\<close>

text \<open>
  \<^verbatim>\<open>handleFileSelect\<close>. Each selected file comes with the two values the browser hands out
  for it when it is accepted: the result of \<^verbatim>\<open>crypto.randomUUID()\<close> and of
  \<^verbatim>\<open>URL.createObjectURL(file)\<close>. Files whose type does not start with \<^verbatim>\<open>image/\<close> are
  filtered out; when none is left the handler returns without touching the list.
\<close>

type_synonym picked = "js_file \<times> string \<times> string"

definition newImage :: "picked \<Rightarrow> image_entry" where
  "newImage p =
     (case p of (f, uuid, objurl) \<Rightarrow>
        \<lparr>id' = uuid, file' = f, url = objurl, rotation = 0, name = file_name f\<rparr>)"

definition handleFileSelect :: "picked list \<Rightarrow> image_entry list \<Rightarrow> image_entry list" where
  "handleFileSelect files prev =
     (let imageFiles = filter (\<lambda>p. prefix ''image/'' (file_type (fst p))) files
      in if length imageFiles = 0 then prev
         else prev @ map newImage imageFiles)"

text \<open>\<^verbatim>\<open>rotateImage\<close>: the updater maps over the whole list.\<close>

definition rotateImage :: "string \<Rightarrow> image_entry list \<Rightarrow> image_entry list" where
  "rotateImage i prev =
     map (\<lambda>img. if id' img = i
                 then img\<lparr>rotation := js_rem (rotation img + 90) 360\<rparr>
                 else img) prev"

text \<open>
  \<^verbatim>\<open>moveUp\<close> and \<^verbatim>\<open>moveDown\<close>. The destructuring assignment
  \<^verbatim>\<open>[a[i - 1], a[i]] = [a[i], a[i - 1]]\<close> reads both right-hand values first and then
  writes left to right. The result is a JavaScript array; the index is the position of a
  rendered entry, a natural number. The guard of \<^verbatim>\<open>moveDown\<close> compares with
  \<^verbatim>\<open>images.length - 1\<close>, which is \<open>-1\<close> on the empty list, so it is computed in \<open>int\<close>;
  it reads \<^verbatim>\<open>images\<close> of the current render, which is the list the updater receives when
  the handlers run one after the other.
\<close>

definition moveUp :: "nat \<Rightarrow> image_entry list \<Rightarrow> image_entry option list" where
  "moveUp index prev =
     (if index = 0 then map Some prev
      else
        let newImages = map Some prev;
            a = js_get newImages index;
            b = js_get newImages (index - 1);
            newImages = js_set newImages (index - 1) a;
            newImages = js_set newImages index b
        in newImages)"

definition moveDown :: "nat \<Rightarrow> image_entry list \<Rightarrow> image_entry option list" where
  "moveDown index prev =
     (if int index = int (length prev) - 1 then map Some prev
      else
        let newImages = map Some prev;
            a = js_get newImages (index + 1);
            b = js_get newImages index;
            newImages = js_set newImages index a;
            newImages = js_set newImages (index + 1) b
        in newImages)"

text \<open>
  \<^verbatim>\<open>removeImage\<close>: the updater returns \<^verbatim>\<open>prev.filter(i => i.id !== id)\<close>; the URL of the
  first entry found with that id is revoked, which is returned beside the list.
\<close>

definition removeImage :: "string \<Rightarrow> image_entry list \<Rightarrow> string option \<times> image_entry list" where
  "removeImage i prev =
     (map_option url (find (\<lambda>e. id' e = i) prev),
      filter (\<lambda>e. id' e \<noteq> i) prev)"

text \<open>\<^verbatim>\<open>clearAll\<close>: every URL is revoked and the list becomes empty.\<close>

definition clearAll :: "image_entry list \<Rightarrow> string list \<times> image_entry list" where
  "clearAll prev = (map url prev, [])"

subsection \<open>Sequences of user actions\<close>

text \<open>
  The events the interface can raise on the list. The move buttons exist once per rendered
  entry, so a move is offered only at an index below the length of the list.
\<close>

datatype action =
    Add "picked list"
  | Rotate string
  | MoveUp nat
  | MoveDown nat
  | Remove string
  | Clear

fun apply_action :: "action \<Rightarrow> image_entry list \<Rightarrow> image_entry list option" where
  "apply_action (Add files) xs = Some (handleFileSelect files xs)"
| "apply_action (Rotate i) xs = Some (rotateImage i xs)"
| "apply_action (MoveUp index) xs =
     (if index < length xs then those (moveUp index xs) else None)"
| "apply_action (MoveDown index) xs =
     (if index < length xs then those (moveDown index xs) else None)"
| "apply_action (Remove i) xs = Some (snd (removeImage i xs))"
| "apply_action Clear xs = Some (snd (clearAll xs))"

fun run :: "action list \<Rightarrow> image_entry list \<Rightarrow> image_entry list option" where
  "run [] xs = Some xs"
| "run (a # as) xs =
     (case apply_action a xs of None \<Rightarrow> None | Some ys \<Rightarrow> run as ys)"

text \<open>The rotations a stored entry may have.\<close>

abbreviation quarter_turns :: "image_entry list \<Rightarrow> bool" where
  "quarter_turns xs \<equiv> \<forall>e \<in> set xs. rotation e \<in> {0, 90, 180, 270}"

section \<open>Rendering and page assembly\<close>

subsection \<open>JavaScript numbers\<close>

text \<open>
  A JavaScript number is a finite value, \<^verbatim>\<open>Infinity\<close>, \<^verbatim>\<open>-Infinity\<close> or \<^verbatim>\<open>NaN\<close>. Finite
  values are taken as exact reals: the rounding of IEEE doubles is left out, and so is the
  sign of zero (no negative zero arises in this program). Division by zero gives an
  infinity or \<^verbatim>\<open>NaN\<close> and raises nothing, and every comparison with \<^verbatim>\<open>NaN\<close> is false.
\<close>

datatype jsnum = Fin real | PosInf | NegInf | NaN

fun js_div :: "jsnum \<Rightarrow> jsnum \<Rightarrow> jsnum" where
  "js_div NaN b = NaN"
| "js_div a NaN = NaN"
| "js_div (Fin a) (Fin b) =
     (if b \<noteq> 0 then Fin (a / b)
      else if 0 < a then PosInf else if a < 0 then NegInf else NaN)"
| "js_div (Fin a) PosInf = Fin 0"
| "js_div (Fin a) NegInf = Fin 0"
| "js_div PosInf (Fin b) = (if 0 \<le> b then PosInf else NegInf)"
| "js_div NegInf (Fin b) = (if 0 \<le> b then NegInf else PosInf)"
| "js_div PosInf b = NaN"
| "js_div NegInf b = NaN"

fun js_mul :: "jsnum \<Rightarrow> jsnum \<Rightarrow> jsnum" where
  "js_mul NaN b = NaN"
| "js_mul a NaN = NaN"
| "js_mul (Fin a) (Fin b) = Fin (a * b)"
| "js_mul (Fin a) PosInf = (if 0 < a then PosInf else if a < 0 then NegInf else NaN)"
| "js_mul (Fin a) NegInf = (if 0 < a then NegInf else if a < 0 then PosInf else NaN)"
| "js_mul PosInf (Fin b) = (if 0 < b then PosInf else if b < 0 then NegInf else NaN)"
| "js_mul NegInf (Fin b) = (if 0 < b then NegInf else if b < 0 then PosInf else NaN)"
| "js_mul PosInf PosInf = PosInf"
| "js_mul PosInf NegInf = NegInf"
| "js_mul NegInf PosInf = NegInf"
| "js_mul NegInf NegInf = PosInf"

fun js_sub :: "jsnum \<Rightarrow> jsnum \<Rightarrow> jsnum" where
  "js_sub NaN b = NaN"
| "js_sub a NaN = NaN"
| "js_sub (Fin a) (Fin b) = Fin (a - b)"
| "js_sub (Fin a) PosInf = NegInf"
| "js_sub (Fin a) NegInf = PosInf"
| "js_sub PosInf PosInf = NaN"
| "js_sub NegInf NegInf = NaN"
| "js_sub PosInf b = PosInf"
| "js_sub NegInf b = NegInf"

fun js_gt :: "jsnum \<Rightarrow> jsnum \<Rightarrow> bool" where
  "js_gt NaN b = False"
| "js_gt a NaN = False"
| "js_gt (Fin a) (Fin b) = (b < a)"
| "js_gt PosInf PosInf = False"
| "js_gt PosInf b = True"
| "js_gt NegInf b = False"
| "js_gt (Fin a) PosInf = False"
| "js_gt (Fin a) NegInf = True"

subsection \<open>The rotation renderer\<close>

text \<open>
  The canvas of \<^verbatim>\<open>loadImageWithRotation\<close>: its size (an unsigned integer each way) and the
  drawing calls made on its context, in order. \<^verbatim>\<open>ctx.rotate\<close> is handed the angle
  \<^verbatim>\<open>(rotation * Math.PI) / 180\<close>; the call is recorded with \<^verbatim>\<open>rotation\<close>, the angle in
  degrees. \<^verbatim>\<open>canvas.toDataURL('image/jpeg', 0.92)\<close> is the browser's encoder; its result
  stands for the canvas, the format and the quality it was given.
\<close>

datatype ctx_call =
    Translate real real
  | RotateDegrees int
  | DrawImage string real real

record canvas =
  canvas_width :: nat
  canvas_height :: nat
  calls :: "ctx_call list"

datatype data_url = ToDataURL canvas string real

record image_data =
  dataUrl :: data_url
  width :: nat
  height :: nat

text \<open>
  The promise of \<^verbatim>\<open>loadImageWithRotation\<close> is resolved inside \<^verbatim>\<open>img.onload\<close>. The executor
  takes no \<^verbatim>\<open>reject\<close> and sets no \<^verbatim>\<open>onerror\<close>, so when the browser cannot load the URL as
  an image, nothing ever settles the promise.
\<close>

datatype 'a promise = Resolved 'a | Unsettled

text \<open>
  The browser's decoder is a parameter: \<open>decode u = Some (w, h)\<close> when loading the URL \<open>u\<close>
  fires \<^verbatim>\<open>load\<close> on an image of natural size \<open>w\<close> by \<open>h\<close>, and \<open>None\<close> when it fires
  \<^verbatim>\<open>error\<close>.
\<close>

definition loadImageWithRotation ::
  "(string \<Rightarrow> (nat \<times> nat) option) \<Rightarrow> image_entry \<Rightarrow> image_data promise" where
  "loadImageWithRotation decode imageData =
     (case decode (url imageData) of
        None \<Rightarrow> Unsettled
      | Some (img_width, img_height) \<Rightarrow>
          let rot = rotation imageData;
              isRotated = (rot = 90 \<or> rot = 270);
              cw = (if isRotated then img_height else img_width);
              ch = (if isRotated then img_width else img_height);
              cv = \<lparr>canvas_width = cw, canvas_height = ch,
                    calls = [Translate (real cw / 2) (real ch / 2),
                             RotateDegrees rot,
                             DrawImage (url imageData)
                               (- real img_width / 2) (- real img_height / 2)]\<rparr>
          in Resolved \<lparr>dataUrl = ToDataURL cv ''image/jpeg'' (92 / 100),
                        width = cw, height = ch\<rparr>)"

subsection \<open>Fitting an image on the page\<close>

definition pageWidth :: jsnum where
  "pageWidth = Fin 210"

definition pageHeight :: jsnum where
  "pageHeight = Fin 297"

definition margin :: jsnum where
  "margin = Fin 10"

definition maxWidth :: jsnum where
  "maxWidth = js_sub pageWidth (js_mul margin (Fin 2))"

definition maxHeight :: jsnum where
  "maxHeight = js_sub pageHeight (js_mul margin (Fin 2))"

text \<open>
  The rectangle handed to \<^verbatim>\<open>pdf.addImage\<close>: \<^verbatim>\<open>x\<close>, \<^verbatim>\<open>y\<close>, \<^verbatim>\<open>finalWidth\<close>, \<^verbatim>\<open>finalHeight\<close>
  (\<open>xpos\<close> and \<open>ypos\<close> here, to keep \<open>x\<close> and \<open>y\<close> free as variables).
\<close>

record layout_rect =
  xpos :: jsnum
  ypos :: jsnum
  finalWidth :: jsnum
  finalHeight :: jsnum

definition imgRatio :: "image_data \<Rightarrow> jsnum" where
  "imgRatio imageData = js_div (Fin (real (width imageData))) (Fin (real (height imageData)))"

definition pageRatio :: jsnum where
  "pageRatio = js_div maxWidth maxHeight"

text \<open>
  The body of the loop of \<^verbatim>\<open>generatePDF\<close> between the comments
  \<^verbatim>\<open>Calculate dimensions to fit on page\<close> and \<^verbatim>\<open>Center image on page\<close>. No statement of it
  tests the height or raises.
\<close>

definition layout :: "image_data \<Rightarrow> layout_rect" where
  "layout imageData =
     (case (if js_gt (imgRatio imageData) pageRatio
            then (maxWidth, js_div maxWidth (imgRatio imageData))
            else (js_mul maxHeight (imgRatio imageData), maxHeight))
      of (fw, fh) \<Rightarrow>
        \<lparr>xpos = js_div (js_sub pageWidth fw) (Fin 2),
         ypos = js_div (js_sub pageHeight fh) (Fin 2),
         finalWidth = fw, finalHeight = fh\<rparr>)"

subsection \<open>The file name\<close>

text \<open>
  A JavaScript string is a sequence of UTF-16 code units, here natural numbers. \<open>js_string\<close>
  writes an ASCII literal as such a sequence.
\<close>

type_synonym jsstring = "nat list"

definition js_string :: "string \<Rightarrow> jsstring" where
  "js_string s = map of_char s"

text \<open>
  \<^verbatim>\<open>String.prototype.trim\<close> removes the white space and line terminators of ECMAScript
  from both ends: TAB, LF, VT, FF, CR, SP, NBSP, U+1680, U+2000 to U+200A, U+2028, U+2029,
  U+202F, U+205F, U+3000 and U+FEFF.
\<close>

definition js_whitespace :: "nat \<Rightarrow> bool" where
  "js_whitespace c =
     (c = 9 \<or> c = 10 \<or> c = 11 \<or> c = 12 \<or> c = 13 \<or> c = 32 \<or> c = 160 \<or> c = 5760
      \<or> (8192 \<le> c \<and> c \<le> 8202) \<or> c = 8232 \<or> c = 8233 \<or> c = 8239 \<or> c = 8287
      \<or> c = 12288 \<or> c = 65279)"

definition trim :: "jsstring \<Rightarrow> jsstring" where
  "trim s = rev (dropWhile js_whitespace (rev (dropWhile js_whitespace s)))"

text \<open>
  The class of \<^verbatim>\<open>/[^a-zA-Z0-9-_]/g\<close> before negation: the three ranges, the hyphen (45) and
  the underscore (95). Without the \<^verbatim>\<open>u\<close> flag the expression matches single code units, and
  \<^verbatim>\<open>replace\<close> with the \<^verbatim>\<open>g\<close> flag walks the string from left to right.
\<close>

definition in_class :: "nat \<Rightarrow> bool" where
  "in_class c =
     ((97 \<le> c \<and> c \<le> 122) \<or> (65 \<le> c \<and> c \<le> 90) \<or> (48 \<le> c \<and> c \<le> 57)
      \<or> c = 45 \<or> c = 95)"

fun replace_g :: "jsstring \<Rightarrow> jsstring" where
  "replace_g [] = []"
| "replace_g (c # cs) = (if in_class c then c else 95) # replace_g cs"

text \<open>The empty string is falsy, so \<^verbatim>\<open>||\<close> falls through to \<^verbatim>\<open>'document'\<close>.\<close>

definition sanitizedFilename :: "jsstring \<Rightarrow> jsstring" where
  "sanitizedFilename filename =
     (let r = replace_g (trim filename)
      in if r = [] then js_string ''document'' else r)"

subsection \<open>Assembling the document\<close>

text \<open>
  The jsPDF document as the component drives it: the pages in order, each with the images
  placed on it. \<^verbatim>\<open>new jsPDF\<close> starts with one empty page, \<^verbatim>\<open>addPage\<close> opens a new last page
  and \<^verbatim>\<open>addImage\<close> draws on the last page. The library is not part of the repository:
  whether \<^verbatim>\<open>addImage\<close> throws on a call is a parameter, \<open>accepts\<close>; the constructor,
  \<^verbatim>\<open>addPage\<close> and \<^verbatim>\<open>save\<close> are taken not to throw.
\<close>

record placed_image =
  image :: data_url
  format :: string
  rect :: layout_rect

type_synonym pdf = "placed_image list list"

definition new_jsPDF :: pdf where
  "new_jsPDF = [[]]"

definition addPage :: "pdf \<Rightarrow> pdf" where
  "addPage doc = doc @ [[]]"

definition addImage :: "pdf \<Rightarrow> placed_image \<Rightarrow> pdf" where
  "addImage doc p = butlast doc @ [last doc @ [p]]"

record browser =
  decode :: "string \<Rightarrow> (nat \<times> nat) option"
  accepts :: "placed_image \<Rightarrow> bool"

text \<open>A library that takes every call of \<^verbatim>\<open>addImage\<close>.\<close>

definition accepts_all :: "placed_image \<Rightarrow> bool" where
  "accepts_all p = True"

text \<open>
  How a run of asynchronous code ends: normally, by a thrown exception, or never, when it
  awaits a promise that nothing settles.
\<close>

datatype 'a completion = Normal 'a | Thrown | NeverSettles

text \<open>
  The \<^verbatim>\<open>for\<close> loop of \<^verbatim>\<open>generatePDF\<close>, from index \<open>i\<close> on, over the entries still to come.
\<close>

fun add_pages :: "browser \<Rightarrow> nat \<Rightarrow> image_entry list \<Rightarrow> pdf \<Rightarrow> pdf completion" where
  "add_pages env i [] doc = Normal doc"
| "add_pages env i (e # rest) doc =
     (let doc1 = (if 0 < i then addPage doc else doc)
      in case loadImageWithRotation (decode env) e of
           Unsettled \<Rightarrow> NeverSettles
         | Resolved imageData \<Rightarrow>
             let p = \<lparr>image = dataUrl imageData, format = ''JPEG'', rect = layout imageData\<rparr>
             in if accepts env p then add_pages env (i + 1) rest (addImage doc1 p)
                else Thrown)"

text \<open>The state of the component, and what the user gets to see of an export.\<close>

record app_state =
  images :: "image_entry list"
  filename :: jsstring
  isGenerating :: bool

datatype outcome =
    Returned
  | Saved jsstring pdf
  | Alerted
  | Pending

text \<open>
  \<^verbatim>\<open>generatePDF\<close>: \<open>Returned\<close> is the early \<^verbatim>\<open>return\<close>, \<open>Saved\<close> the call of \<^verbatim>\<open>pdf.save\<close>,
  \<open>Alerted\<close> the \<^verbatim>\<open>catch\<close> block (with the \<^verbatim>\<open>finally\<close> block run after either), and \<open>Pending\<close>
  an \<^verbatim>\<open>await\<close> that never resumes, which leaves \<^verbatim>\<open>isGenerating\<close> set.
\<close>

definition generatePDF :: "browser \<Rightarrow> app_state \<Rightarrow> outcome \<times> app_state" where
  "generatePDF env st =
     (if length (images st) = 0 then (Returned, st)
      else
        let st1 = st\<lparr>isGenerating := True\<rparr>
        in case add_pages env 0 (images st1) new_jsPDF of
             NeverSettles \<Rightarrow> (Pending, st1)
           | Thrown \<Rightarrow> (Alerted, st1\<lparr>isGenerating := False\<rparr>)
           | Normal doc \<Rightarrow>
               (Saved (sanitizedFilename (filename st1) @ js_string ''.pdf'') doc,
                st1\<lparr>isGenerating := False\<rparr>))"

section \<open>Properties of the image record store\<close>

subsection \<open>Rotation\<close>

lemma js_rem_nonneg: "0 \<le> a \<Longrightarrow> js_rem a 360 = a mod 360"
  by (cases "a = 0") (simp_all add: js_rem_def)

lemma length_rotateImage: "length (rotateImage i xs) = length xs"
  by (simp add: rotateImage_def)

lemma rotateImage_nth:
  "n < length xs \<Longrightarrow>
   rotateImage i xs ! n =
     (if id' (xs ! n) = i
      then (xs ! n)\<lparr>rotation := js_rem (rotation (xs ! n) + 90) 360\<rparr>
      else xs ! n)"
  by (simp add: rotateImage_def)

lemma rotateImage_absent: "i \<notin> id' ` set xs \<Longrightarrow> rotateImage i xs = xs"
  unfolding rotateImage_def by (induction xs) auto

lemma length_rotate_pow: "length ((rotateImage i ^^ k) xs) = length xs"
  by (induction k) (simp_all add: length_rotateImage)

text \<open>
  Pressing the button \<open>k\<close> times on an entry whose rotation lies in \<open>[0, 360)\<close> adds
  \<open>90 * k\<close> modulo 360 and touches no other field.
\<close>

lemma rotate_pow_nth:
  assumes "n < length xs" and "id' (xs ! n) = i"
    and "0 \<le> rotation (xs ! n)" and "rotation (xs ! n) < 360"
  shows "(rotateImage i ^^ k) xs ! n =
           (xs ! n)\<lparr>rotation := (rotation (xs ! n) + 90 * int k) mod 360\<rparr>"
proof (induction k)
  case 0
  then show ?case using assms by simp
next
  case (Suc k)
  let ?ys = "(rotateImage i ^^ k) xs"
  have len: "n < length ?ys"
    using assms(1) by (simp add: length_rotate_pow)
  have "id' (?ys ! n) = i"
    using Suc assms(2) by simp
  moreover have "0 \<le> rotation (?ys ! n) + 90"
    using Suc by simp
  ultimately show ?case
    using len Suc by (simp add: rotateImage_nth js_rem_nonneg mod_simps algebra_simps)
qed

text \<open>
  C5. For an entry of the store whose id is the one given (its rotation not negative, as
  for every stored entry), one \<open>rotateImage\<close> sets its rotation to \<open>(rotation + 90) mod 360\<close>
  and leaves its other fields, the length of the list and every entry with another id as
  they were. Applied \<open>k\<close> times to an entry with rotation 0 it gives \<open>(90 * k) mod 360\<close>, and
  applied 4 times to an entry with rotation below 360 it gives the entry back. With an id
  that no entry has, the list is unchanged.
\<close>

theorem rotateImage_quarter_turns:
  "(n < length xs \<and> id' (xs ! n) = i \<and> 0 \<le> rotation (xs ! n) \<longrightarrow>
      rotateImage i xs ! n = (xs ! n)\<lparr>rotation := (rotation (xs ! n) + 90) mod 360\<rparr>
      \<and> length (rotateImage i xs) = length xs
      \<and> (\<forall>m < length xs. id' (xs ! m) \<noteq> i \<longrightarrow> rotateImage i xs ! m = xs ! m)
      \<and> (rotation (xs ! n) = 0 \<longrightarrow>
            rotation ((rotateImage i ^^ k) xs ! n) = (90 * int k) mod 360)
      \<and> (rotation (xs ! n) < 360 \<longrightarrow> (rotateImage i ^^ 4) xs ! n = xs ! n))
   \<and> (j \<notin> id' ` set xs \<longrightarrow> rotateImage j xs = xs)"
proof (intro conjI impI)
  assume h: "n < length xs \<and> id' (xs ! n) = i \<and> 0 \<le> rotation (xs ! n)"
  then show "rotateImage i xs ! n = (xs ! n)\<lparr>rotation := (rotation (xs ! n) + 90) mod 360\<rparr>"
    by (simp add: rotateImage_nth js_rem_nonneg)
  show "length (rotateImage i xs) = length xs"
    by (rule length_rotateImage)
  show "\<forall>m < length xs. id' (xs ! m) \<noteq> i \<longrightarrow> rotateImage i xs ! m = xs ! m"
    by (simp add: rotateImage_nth)
  {
    assume "rotation (xs ! n) = 0"
    with h show "rotation ((rotateImage i ^^ k) xs ! n) = (90 * int k) mod 360"
      by (simp add: rotate_pow_nth)
  }
  {
    assume "rotation (xs ! n) < 360"
    with h show "(rotateImage i ^^ 4) xs ! n = xs ! n"
      by (simp add: rotate_pow_nth)
  }
next
  assume "j \<notin> id' ` set xs"
  then show "rotateImage j xs = xs"
    by (rule rotateImage_absent)
qed

theorem rotateImage_quarter_turns_witness:
  "rotateImage ''a''
     [\<lparr>id' = ''a'', file' = \<lparr>file_type = ''image/png'', file_name = ''p.png''\<rparr>,
        url = ''blob:1'', rotation = 270, name = ''p.png''\<rparr>,
      \<lparr>id' = ''b'', file' = \<lparr>file_type = ''image/gif'', file_name = ''q.gif''\<rparr>,
        url = ''blob:2'', rotation = 90, name = ''q.gif''\<rparr>] ! 0
   = \<lparr>id' = ''a'', file' = \<lparr>file_type = ''image/png'', file_name = ''p.png''\<rparr>,
        url = ''blob:1'', rotation = 0, name = ''p.png''\<rparr>
   \<and> rotateImage ''c''
     [\<lparr>id' = ''a'', file' = \<lparr>file_type = ''image/png'', file_name = ''p.png''\<rparr>,
        url = ''blob:1'', rotation = 270, name = ''p.png''\<rparr>,
      \<lparr>id' = ''b'', file' = \<lparr>file_type = ''image/gif'', file_name = ''q.gif''\<rparr>,
        url = ''blob:2'', rotation = 90, name = ''q.gif''\<rparr>]
   = [\<lparr>id' = ''a'', file' = \<lparr>file_type = ''image/png'', file_name = ''p.png''\<rparr>,
        url = ''blob:1'', rotation = 270, name = ''p.png''\<rparr>,
      \<lparr>id' = ''b'', file' = \<lparr>file_type = ''image/gif'', file_name = ''q.gif''\<rparr>,
        url = ''blob:2'', rotation = 90, name = ''q.gif''\<rparr>]"
  using rotateImage_quarter_turns
    [of 0 "[\<lparr>id' = ''a'', file' = \<lparr>file_type = ''image/png'', file_name = ''p.png''\<rparr>,
              url = ''blob:1'', rotation = 270, name = ''p.png''\<rparr>,
            \<lparr>id' = ''b'', file' = \<lparr>file_type = ''image/gif'', file_name = ''q.gif''\<rparr>,
              url = ''blob:2'', rotation = 90, name = ''q.gif''\<rparr>]" "''a''" 1 "''c''"]
  by simp

subsection \<open>Reordering\<close>

lemma those_map_Some: "those (map Some xs) = Some xs"
  by (induction xs) simp_all

lemma moveUp_interior:
  assumes "0 < index" and "index < length prev"
  shows "moveUp index prev =
           map Some (prev[index - 1 := prev ! index, index := prev ! (index - 1)])"
proof -
  have "index - 1 < length prev"
    using assms by arith
  with assms show ?thesis
    by (simp add: moveUp_def js_get_def js_set_def Let_def map_update)
qed

lemma moveDown_interior:
  assumes "index + 1 < length prev"
  shows "moveDown index prev =
           map Some (prev[index := prev ! (index + 1), index + 1 := prev ! index])"
  using assms by (simp add: moveDown_def js_get_def js_set_def Let_def map_update)

lemma moveUp_first: "moveUp 0 prev = map Some prev"
  by (simp add: moveUp_def)

lemma moveDown_last: "prev \<noteq> [] \<Longrightarrow> moveDown (length prev - 1) prev = map Some prev"
  by (cases prev) (simp_all add: moveDown_def)

text \<open>
  C7. On a non-empty list, \<open>moveUp\<close> at an index that has a predecessor exchanges the
  entries at \<open>index - 1\<close> and \<open>index\<close>, and \<open>moveDown\<close> at an index that has a successor
  exchanges the entries at \<open>index\<close> and \<open>index + 1\<close>; nothing else moves and no entry is
  altered. \<open>moveUp\<close> at 0 and \<open>moveDown\<close> at the last index give the list back.
\<close>

theorem move_swaps_neighbours:
  "prev \<noteq> [] \<longrightarrow>
     (0 < index \<and> index < length prev \<longrightarrow>
        moveUp index prev =
          map Some (prev[index - 1 := prev ! index, index := prev ! (index - 1)]))
   \<and> (index + 1 < length prev \<longrightarrow>
        moveDown index prev =
          map Some (prev[index := prev ! (index + 1), index + 1 := prev ! index]))
   \<and> moveUp 0 prev = map Some prev
   \<and> moveDown (length prev - 1) prev = map Some prev"
  using moveUp_interior [of index prev] moveDown_interior [of index prev]
    moveUp_first [of prev] moveDown_last [of prev]
  by blast

theorem move_swaps_neighbours_witness:
  "moveUp 1 [\<lparr>id' = ''a'', file' = \<lparr>file_type = ''image/png'', file_name = ''p.png''\<rparr>,
               url = ''blob:1'', rotation = 0, name = ''p.png''\<rparr>,
             \<lparr>id' = ''b'', file' = \<lparr>file_type = ''image/gif'', file_name = ''q.gif''\<rparr>,
               url = ''blob:2'', rotation = 90, name = ''q.gif''\<rparr>]
   = [Some \<lparr>id' = ''b'', file' = \<lparr>file_type = ''image/gif'', file_name = ''q.gif''\<rparr>,
              url = ''blob:2'', rotation = 90, name = ''q.gif''\<rparr>,
      Some \<lparr>id' = ''a'', file' = \<lparr>file_type = ''image/png'', file_name = ''p.png''\<rparr>,
              url = ''blob:1'', rotation = 0, name = ''p.png''\<rparr>]
   \<and> moveDown 1 [\<lparr>id' = ''a'', file' = \<lparr>file_type = ''image/png'', file_name = ''p.png''\<rparr>,
               url = ''blob:1'', rotation = 0, name = ''p.png''\<rparr>,
             \<lparr>id' = ''b'', file' = \<lparr>file_type = ''image/gif'', file_name = ''q.gif''\<rparr>,
               url = ''blob:2'', rotation = 90, name = ''q.gif''\<rparr>]
   = [Some \<lparr>id' = ''a'', file' = \<lparr>file_type = ''image/png'', file_name = ''p.png''\<rparr>,
              url = ''blob:1'', rotation = 0, name = ''p.png''\<rparr>,
      Some \<lparr>id' = ''b'', file' = \<lparr>file_type = ''image/gif'', file_name = ''q.gif''\<rparr>,
              url = ''blob:2'', rotation = 90, name = ''q.gif''\<rparr>]"
  using move_swaps_neighbours
    [of "[\<lparr>id' = ''a'', file' = \<lparr>file_type = ''image/png'', file_name = ''p.png''\<rparr>,
            url = ''blob:1'', rotation = 0, name = ''p.png''\<rparr>,
          \<lparr>id' = ''b'', file' = \<lparr>file_type = ''image/gif'', file_name = ''q.gif''\<rparr>,
            url = ''blob:2'', rotation = 90, name = ''q.gif''\<rparr>]" 1]
  by simp

subsection \<open>Removal\<close>





subsection \<open>The rotation invariant\<close>

lemma quarter_turns_add: "quarter_turns xs \<Longrightarrow> quarter_turns (handleFileSelect files xs)"
  by (auto simp: handleFileSelect_def Let_def newImage_def split: prod.splits)

lemma quarter_turns_rotate: "quarter_turns xs \<Longrightarrow> quarter_turns (rotateImage i xs)"
  by (auto simp: rotateImage_def js_rem_def)

lemma quarter_turns_remove: "quarter_turns xs \<Longrightarrow> quarter_turns (snd (removeImage i xs))"
  by (auto simp: removeImage_def)

lemma moveUp_those:
  assumes "index < length xs" and "those (moveUp index xs) = Some ys"
  shows "set ys = set xs"
proof (cases "index = 0")
  case True
  with assms show ?thesis
    by (simp add: moveUp_first those_map_Some)
next
  case False
  then have "moveUp index xs =
      map Some (xs[index - 1 := xs ! index, index := xs ! (index - 1)])"
    using assms(1) by (simp add: moveUp_interior)
  with assms have "ys = xs[index - 1 := xs ! index, index := xs ! (index - 1)]"
    by (simp add: those_map_Some)
  then show ?thesis
    using assms(1) False by simp
qed

lemma moveDown_those:
  assumes "index < length xs" and "those (moveDown index xs) = Some ys"
  shows "set ys = set xs"
proof (cases "index + 1 < length xs")
  case True
  then have "moveDown index xs =
      map Some (xs[index := xs ! (index + 1), index + 1 := xs ! index])"
    by (simp add: moveDown_interior)
  with assms have "ys = xs[index := xs ! (index + 1), index + 1 := xs ! index]"
    by (simp add: those_map_Some)
  then show ?thesis
    using assms(1) True by simp
next
  case False
  with assms(1) have "index = length xs - 1" and "xs \<noteq> []"
    by auto
  with assms(2) moveDown_last [of xs] show ?thesis
    by (simp add: those_map_Some)
qed

lemma quarter_turns_step:
  assumes "quarter_turns xs" and "apply_action a xs = Some ys"
  shows "quarter_turns ys"
proof (cases a)
  case (Add files)
  with assms(2) have "ys = handleFileSelect files xs"
    by simp
  then show ?thesis
    using quarter_turns_add [OF assms(1), of files] by simp
next
  case (Rotate i)
  with assms(2) have "ys = rotateImage i xs"
    by simp
  then show ?thesis
    using quarter_turns_rotate [OF assms(1), of i] by simp
next
  case (MoveUp n)
  with assms show ?thesis
    by (auto split: if_splits dest!: moveUp_those)
next
  case (MoveDown n)
  with assms show ?thesis
    by (auto split: if_splits dest!: moveDown_those)
next
  case (Remove i)
  with assms(2) have "ys = snd (removeImage i xs)"
    by simp
  then show ?thesis
    using quarter_turns_remove [OF assms(1), of i] by simp
next
  case Clear
  with assms show ?thesis by (auto simp: clearAll_def)
qed

lemma quarter_turns_run:
  "quarter_turns xs \<Longrightarrow> run as xs = Some ys \<Longrightarrow> quarter_turns ys"
proof (induction as arbitrary: xs)
  case Nil
  then show ?case by simp
next
  case (Cons a as)
  from Cons.prems(2) obtain zs where
    step: "apply_action a xs = Some zs" and rest: "run as zs = Some ys"
    by (auto split: option.splits)
  from Cons.prems(1) step have "quarter_turns zs"
    by (rule quarter_turns_step)
  then show ?case
    using rest by (rule Cons.IH)
qed

text \<open>
  C6. Every list reached from the empty store by a sequence of add, rotate, move up, move
  down, remove and clear actions holds only entries whose rotation is 0, 90, 180 or 270;
  the entries that adding files puts into a list have rotation 0.
\<close>

theorem rotation_invariant:
  "(run as [] = Some ys \<longrightarrow> (\<forall>e \<in> set ys. rotation e \<in> {0, 90, 180, 270}))
   \<and> (\<forall>e \<in> set (handleFileSelect files prev). e \<in> set prev \<or> rotation e = 0)"
proof (intro conjI impI)
  assume "run as [] = Some ys"
  with quarter_turns_run [of "[]" as ys]
  show "\<forall>e \<in> set ys. rotation e \<in> {0, 90, 180, 270}"
    by simp
next
  show "\<forall>e \<in> set (handleFileSelect files prev). e \<in> set prev \<or> rotation e = 0"
    by (auto simp: handleFileSelect_def Let_def newImage_def split: prod.splits)
qed

theorem rotation_invariant_witness:
  "run [Add [(\<lparr>file_type = ''image/png'', file_name = ''p.png''\<rparr>, ''a'', ''blob:1''),
             (\<lparr>file_type = ''text/plain'', file_name = ''t.txt''\<rparr>, ''x'', ''blob:9''),
             (\<lparr>file_type = ''image/gif'', file_name = ''q.gif''\<rparr>, ''b'', ''blob:2'')],
        Rotate ''a'', MoveDown 0, Rotate ''a'', Remove ''b'', MoveUp 0] []
   = Some [\<lparr>id' = ''a'', file' = \<lparr>file_type = ''image/png'', file_name = ''p.png''\<rparr>,
             url = ''blob:1'', rotation = 180, name = ''p.png''\<rparr>]
   \<and> list_all (\<lambda>e. rotation e \<in> {0, 90, 180, 270})
         [\<lparr>id' = ''a'', file' = \<lparr>file_type = ''image/png'', file_name = ''p.png''\<rparr>,
            url = ''blob:1'', rotation = 180, name = ''p.png''\<rparr>]"
proof -
  have r: "run [Add [(\<lparr>file_type = ''image/png'', file_name = ''p.png''\<rparr>, ''a'', ''blob:1''),
             (\<lparr>file_type = ''text/plain'', file_name = ''t.txt''\<rparr>, ''x'', ''blob:9''),
             (\<lparr>file_type = ''image/gif'', file_name = ''q.gif''\<rparr>, ''b'', ''blob:2'')],
        Rotate ''a'', MoveDown 0, Rotate ''a'', Remove ''b'', MoveUp 0] []
   = Some [\<lparr>id' = ''a'', file' = \<lparr>file_type = ''image/png'', file_name = ''p.png''\<rparr>,
             url = ''blob:1'', rotation = 180, name = ''p.png''\<rparr>]"
    by (simp add: handleFileSelect_def newImage_def rotateImage_def js_rem_def moveDown_def
        moveUp_def js_get_def js_set_def removeImage_def)
  show ?thesis
    using r rotation_invariant [THEN conjunct1, THEN mp, OF r] by simp
qed

section \<open>Properties of rendering and assembly\<close>

subsection \<open>The rotation renderer\<close>

text \<open>
  C4. When the source decodes to an image of natural size \<open>w\<close> by \<open>h\<close>, the promise resolves
  with the encoding of a canvas that was given the size \<open>h\<close> by \<open>w\<close> if the rotation is 90 or
  270, and the size \<open>w\<close> by \<open>h\<close> for every other rotation, 0 and 180 among them. The
  \<^verbatim>\<open>width\<close> and \<^verbatim>\<open>height\<close> reported beside it are those of that canvas, and the canvas was
  drawn on by a translation to its centre, the rotation of the entry and the source image
  placed with its own centre at the origin.
\<close>

theorem loadImageWithRotation_dimensions:
  "dec (url e) = Some (w, h) \<longrightarrow>
     (\<exists>d cv. loadImageWithRotation dec e = Resolved d
        \<and> dataUrl d = ToDataURL cv ''image/jpeg'' (92 / 100)
        \<and> width d = canvas_width cv \<and> height d = canvas_height cv
        \<and> calls cv =
              [Translate (real (canvas_width cv) / 2) (real (canvas_height cv) / 2),
               RotateDegrees (rotation e),
               DrawImage (url e) (- real w / 2) (- real h / 2)]
        \<and> (rotation e = 90 \<or> rotation e = 270 \<longrightarrow>
              canvas_width cv = h \<and> canvas_height cv = w \<and> width d = h \<and> height d = w)
        \<and> (rotation e = 0 \<or> rotation e = 180 \<longrightarrow>
              canvas_width cv = w \<and> canvas_height cv = h \<and> width d = w \<and> height d = h)
        \<and> (rotation e \<noteq> 90 \<and> rotation e \<noteq> 270 \<longrightarrow>
              canvas_width cv = w \<and> canvas_height cv = h \<and> width d = w \<and> height d = h))"
proof (intro impI)
  assume dec: "dec (url e) = Some (w, h)"
  let ?rotated = "rotation e = 90 \<or> rotation e = 270"
  let ?cw = "if ?rotated then h else w"
  let ?ch = "if ?rotated then w else h"
  let ?cv = "\<lparr>canvas_width = ?cw, canvas_height = ?ch,
               calls = [Translate (real ?cw / 2) (real ?ch / 2),
                        RotateDegrees (rotation e),
                        DrawImage (url e) (- real w / 2) (- real h / 2)]\<rparr>"
  let ?d = "\<lparr>dataUrl = ToDataURL ?cv ''image/jpeg'' (92 / 100), width = ?cw, height = ?ch\<rparr>"
  have res: "loadImageWithRotation dec e = Resolved ?d"
    using dec by (simp add: loadImageWithRotation_def Let_def)
  have "loadImageWithRotation dec e = Resolved ?d
        \<and> dataUrl ?d = ToDataURL ?cv ''image/jpeg'' (92 / 100)
        \<and> width ?d = canvas_width ?cv \<and> height ?d = canvas_height ?cv
        \<and> calls ?cv =
              [Translate (real (canvas_width ?cv) / 2) (real (canvas_height ?cv) / 2),
               RotateDegrees (rotation e),
               DrawImage (url e) (- real w / 2) (- real h / 2)]
        \<and> (rotation e = 90 \<or> rotation e = 270 \<longrightarrow>
              canvas_width ?cv = h \<and> canvas_height ?cv = w \<and> width ?d = h \<and> height ?d = w)
        \<and> (rotation e = 0 \<or> rotation e = 180 \<longrightarrow>
              canvas_width ?cv = w \<and> canvas_height ?cv = h \<and> width ?d = w \<and> height ?d = h)
        \<and> (rotation e \<noteq> 90 \<and> rotation e \<noteq> 270 \<longrightarrow>
              canvas_width ?cv = w \<and> canvas_height ?cv = h \<and> width ?d = w \<and> height ?d = h)"
    using res by simp
  then show "\<exists>d cv. loadImageWithRotation dec e = Resolved d
        \<and> dataUrl d = ToDataURL cv ''image/jpeg'' (92 / 100)
        \<and> width d = canvas_width cv \<and> height d = canvas_height cv
        \<and> calls cv =
              [Translate (real (canvas_width cv) / 2) (real (canvas_height cv) / 2),
               RotateDegrees (rotation e),
               DrawImage (url e) (- real w / 2) (- real h / 2)]
        \<and> (rotation e = 90 \<or> rotation e = 270 \<longrightarrow>
              canvas_width cv = h \<and> canvas_height cv = w \<and> width d = h \<and> height d = w)
        \<and> (rotation e = 0 \<or> rotation e = 180 \<longrightarrow>
              canvas_width cv = w \<and> canvas_height cv = h \<and> width d = w \<and> height d = h)
        \<and> (rotation e \<noteq> 90 \<and> rotation e \<noteq> 270 \<longrightarrow>
              canvas_width cv = w \<and> canvas_height cv = h \<and> width d = w \<and> height d = h)"
    by (intro exI [of _ ?d] exI [of _ ?cv])
qed

theorem loadImageWithRotation_dimensions_witness:
  "[''blob:1'' \<mapsto> (800, 600)] ''blob:1'' = Some (800, 600)
   \<and> loadImageWithRotation [''blob:1'' \<mapsto> (800, 600)]
        \<lparr>id' = ''a'', file' = \<lparr>file_type = ''image/png'', file_name = ''p.png''\<rparr>,
           url = ''blob:1'', rotation = 90, name = ''p.png''\<rparr>
     = Resolved
         \<lparr>dataUrl = ToDataURL
            \<lparr>canvas_width = 600, canvas_height = 800,
               calls = [Translate 300 400, RotateDegrees 90, DrawImage ''blob:1'' (- 400) (- 300)]\<rparr>
            ''image/jpeg'' (92 / 100),
          width = 600, height = 800\<rparr>"
  using loadImageWithRotation_dimensions
    [of "[''blob:1'' \<mapsto> (800, 600)]"
        "\<lparr>id' = ''a'', file' = \<lparr>file_type = ''image/png'', file_name = ''p.png''\<rparr>,
           url = ''blob:1'', rotation = 90, name = ''p.png''\<rparr>" 800 600]
  by (simp add: loadImageWithRotation_def)

subsection \<open>Fitting an image on the page\<close>

lemma page_consts:
  "maxWidth = Fin 190" "maxHeight = Fin 277" "pageRatio = Fin (190 / 277)"
  by (simp_all add: maxWidth_def maxHeight_def pageRatio_def pageWidth_def pageHeight_def
      margin_def)

lemma layout_wide:
  assumes "0 < height d" and "190 / 277 < real (width d) / real (height d)"
  shows "layout d =
    \<lparr>xpos = Fin 10, ypos = Fin ((297 - 190 * real (height d) / real (width d)) / 2),
     finalWidth = Fin 190, finalHeight = Fin (190 * real (height d) / real (width d))\<rparr>"
proof -
  have "0 < width d"
    using assms by (cases "width d = 0") simp_all
  with assms show ?thesis
    by (simp add: layout_def imgRatio_def page_consts pageWidth_def pageHeight_def Let_def)
qed

lemma layout_tall:
  assumes "0 < height d" and "\<not> 190 / 277 < real (width d) / real (height d)"
  shows "layout d =
    \<lparr>xpos = Fin ((210 - 277 * (real (width d) / real (height d))) / 2), ypos = Fin 10,
     finalWidth = Fin (277 * (real (width d) / real (height d))), finalHeight = Fin 277\<rparr>"
  using assms
  by (simp add: layout_def imgRatio_def page_consts pageWidth_def pageHeight_def Let_def)

lemma centred: "(p - a) / 2 + a / 2 = p / (2::real)"
  by (simp add: field_simps)

text \<open>
  C1. For a raster of width at least 0 (a natural number) and height above 0, on the page
  of 210 by 297 with margin 10 (content box 190 by 277), the rectangle is finite, at most
  190 wide and 277 high, has the ratio of the raster, and is centred: \<open>x + width / 2\<close> is
  half the page width and \<open>y + height / 2\<close> half the page height. Numbers are exact reals
  here, which is what the tolerance of the statement stands for.
\<close>

theorem layout_fits_page:
  assumes "0 < height d"
  shows "\<exists>x y w h.
           layout d = \<lparr>xpos = Fin x, ypos = Fin y, finalWidth = Fin w, finalHeight = Fin h\<rparr>
           \<and> maxWidth = Fin 190 \<and> maxHeight = Fin 277
           \<and> pageWidth = Fin 210 \<and> pageHeight = Fin 297
           \<and> 0 \<le> w \<and> w \<le> 190 \<and> 0 < h \<and> h \<le> 277
           \<and> w / h = real (width d) / real (height d)
           \<and> x + w / 2 = 210 / 2 \<and> y + h / 2 = 297 / 2"
proof (cases "190 / 277 < real (width d) / real (height d)")
  case True
  let ?h = "190 * real (height d) / real (width d)"
  have hpos: "0 < real (height d)"
    using assms by simp
  have wpos: "0 < real (width d)"
    using True assms by (cases "width d = 0") simp_all
  from True hpos have "190 * real (height d) < 277 * real (width d)"
    by (simp add: field_simps)
  then have le: "?h \<le> 277"
    using wpos by (simp add: field_simps)
  have pos: "0 < ?h"
    using hpos wpos by simp
  have ratio: "190 / ?h = real (width d) / real (height d)"
    using hpos wpos by (simp add: field_simps)
  have "layout d = \<lparr>xpos = Fin 10, ypos = Fin ((297 - ?h) / 2),
           finalWidth = Fin 190, finalHeight = Fin ?h\<rparr>
      \<and> maxWidth = Fin 190 \<and> maxHeight = Fin 277
      \<and> pageWidth = Fin 210 \<and> pageHeight = Fin 297
      \<and> (0::real) \<le> 190 \<and> (190::real) \<le> 190 \<and> 0 < ?h \<and> ?h \<le> 277
      \<and> 190 / ?h = real (width d) / real (height d)
      \<and> (10::real) + 190 / 2 = 210 / 2
      \<and> (297 - ?h) / 2 + ?h / 2 = 297 / 2"
    using layout_wide [OF assms True] le pos ratio centred [of 297 ?h]
    by (simp add: page_consts pageWidth_def pageHeight_def del: times_divide_eq_right)
  then show ?thesis by blast
next
  case False
  let ?w = "277 * (real (width d) / real (height d))"
  have hpos: "0 < real (height d)"
    using assms by simp
  from False hpos have "277 * real (width d) \<le> 190 * real (height d)"
    by (simp add: field_simps)
  then have le: "?w \<le> 190"
    using hpos by (simp add: field_simps)
  have nn: "0 \<le> ?w"
    by simp
  have "layout d = \<lparr>xpos = Fin ((210 - ?w) / 2), ypos = Fin 10,
           finalWidth = Fin ?w, finalHeight = Fin 277\<rparr>
      \<and> maxWidth = Fin 190 \<and> maxHeight = Fin 277
      \<and> pageWidth = Fin 210 \<and> pageHeight = Fin 297
      \<and> 0 \<le> ?w \<and> ?w \<le> 190 \<and> (0::real) < 277 \<and> (277::real) \<le> 277
      \<and> ?w / 277 = real (width d) / real (height d)
      \<and> (210 - ?w) / 2 + ?w / 2 = 210 / 2
      \<and> (10::real) + 277 / 2 = 297 / 2"
    using layout_tall [OF assms False] le nn centred [of 210 ?w]
    by (simp add: page_consts pageWidth_def pageHeight_def)
  then show ?thesis by blast
qed

theorem layout_fits_page_witness:
  "(0::nat) < 600
   \<and> layout \<lparr>dataUrl = ToDataURL \<lparr>canvas_width = 800, canvas_height = 600, calls = []\<rparr>
                           ''image/jpeg'' (92 / 100),
             width = 800, height = 600\<rparr>
     = \<lparr>xpos = Fin 10, ypos = Fin (309 / 4), finalWidth = Fin 190, finalHeight = Fin (285 / 2)\<rparr>"
proof -
  have h: "0 < height \<lparr>dataUrl = ToDataURL \<lparr>canvas_width = 800, canvas_height = 600, calls = []\<rparr>
                           ''image/jpeg'' (92 / 100),
             width = 800, height = 600\<rparr>"
    by simp
  from layout_fits_page [OF h] obtain x y w h where
    "layout \<lparr>dataUrl = ToDataURL \<lparr>canvas_width = 800, canvas_height = 600, calls = []\<rparr>
                           ''image/jpeg'' (92 / 100),
             width = 800, height = 600\<rparr>
      = \<lparr>xpos = Fin x, ypos = Fin y, finalWidth = Fin w, finalHeight = Fin h\<rparr>"
    by blast
  then show ?thesis
    by (simp add: layout_def imgRatio_def page_consts pageWidth_def pageHeight_def Let_def)
qed

lemma layout_zero_height:
  assumes "height d = 0"
  shows "imgRatio d = (if 0 < width d then PosInf else NaN)"
    and "layout d =
      (if 0 < width d
       then \<lparr>xpos = Fin 10, ypos = Fin (297 / 2), finalWidth = Fin 190, finalHeight = Fin 0\<rparr>
       else \<lparr>xpos = NaN, ypos = Fin 10, finalWidth = NaN, finalHeight = Fin 277\<rparr>)"
  using assms
  by (simp_all add: layout_def imgRatio_def page_consts pageWidth_def pageHeight_def Let_def)

text \<open>
  C2, as the code has it. For a raster of height 0 the ratio is \<^verbatim>\<open>Infinity\<close> (width above 0)
  or \<^verbatim>\<open>NaN\<close> (width 0), and the computation raises nothing: it yields the rectangle
  \<open>x = 10\<close>, \<open>y = 148.5\<close>, \<open>190\<close> by \<open>0\<close> in the first case and \<open>x = NaN\<close>, \<open>y = 10\<close>, \<open>NaN\<close> by
  \<open>277\<close> in the second. The loop hands that rectangle to \<^verbatim>\<open>pdf.addImage\<close>, and the
  assembly is given up only if that call throws.
\<close>

theorem layout_degenerate_no_error:
  "loadImageWithRotation (decode env) e = Resolved d \<and> height d = 0 \<longrightarrow>
     imgRatio d = (if 0 < width d then PosInf else NaN)
     \<and> layout d =
         (if 0 < width d
          then \<lparr>xpos = Fin 10, ypos = Fin (297 / 2), finalWidth = Fin 190, finalHeight = Fin 0\<rparr>
          else \<lparr>xpos = NaN, ypos = Fin 10, finalWidth = NaN, finalHeight = Fin 277\<rparr>)
     \<and> add_pages env i [e] doc =
         (if accepts env \<lparr>image = dataUrl d, format = ''JPEG'', rect = layout d\<rparr>
          then Normal (addImage (if 0 < i then addPage doc else doc)
                        \<lparr>image = dataUrl d, format = ''JPEG'', rect = layout d\<rparr>)
          else Thrown)"
proof (intro impI)
  assume h: "loadImageWithRotation (decode env) e = Resolved d \<and> height d = 0"
  then have "add_pages env i [e] doc =
         (if accepts env \<lparr>image = dataUrl d, format = ''JPEG'', rect = layout d\<rparr>
          then Normal (addImage (if 0 < i then addPage doc else doc)
                        \<lparr>image = dataUrl d, format = ''JPEG'', rect = layout d\<rparr>)
          else Thrown)"
    by (simp add: Let_def)
  with h layout_zero_height [of d]
  show "imgRatio d = (if 0 < width d then PosInf else NaN)
     \<and> layout d =
         (if 0 < width d
          then \<lparr>xpos = Fin 10, ypos = Fin (297 / 2), finalWidth = Fin 190, finalHeight = Fin 0\<rparr>
          else \<lparr>xpos = NaN, ypos = Fin 10, finalWidth = NaN, finalHeight = Fin 277\<rparr>)
     \<and> add_pages env i [e] doc =
         (if accepts env \<lparr>image = dataUrl d, format = ''JPEG'', rect = layout d\<rparr>
          then Normal (addImage (if 0 < i then addPage doc else doc)
                        \<lparr>image = dataUrl d, format = ''JPEG'', rect = layout d\<rparr>)
          else Thrown)"
    by blast
qed

theorem layout_degenerate_no_error_witness:
  "add_pages \<lparr>decode = [''blob:1'' \<mapsto> (5, 0)], accepts = accepts_all\<rparr> 0
     [\<lparr>id' = ''a'', file' = \<lparr>file_type = ''image/svg+xml'', file_name = ''flat.svg''\<rparr>,
        url = ''blob:1'', rotation = 0, name = ''flat.svg''\<rparr>] new_jsPDF
   = Normal [[\<lparr>image = ToDataURL \<lparr>canvas_width = 5, canvas_height = 0,
                 calls = [Translate (5 / 2) 0, RotateDegrees 0, DrawImage ''blob:1'' (- 5 / 2) 0]\<rparr>
                 ''image/jpeg'' (92 / 100),
               format = ''JPEG'',
               rect = \<lparr>xpos = Fin 10, ypos = Fin (297 / 2),
                        finalWidth = Fin 190, finalHeight = Fin 0\<rparr>\<rparr>]]"
  using layout_degenerate_no_error
    [of "\<lparr>decode = [''blob:1'' \<mapsto> (5, 0)], accepts = accepts_all\<rparr>"
        "\<lparr>id' = ''a'', file' = \<lparr>file_type = ''image/svg+xml'', file_name = ''flat.svg''\<rparr>,
           url = ''blob:1'', rotation = 0, name = ''flat.svg''\<rparr>"
        "\<lparr>dataUrl = ToDataURL \<lparr>canvas_width = 5, canvas_height = 0,
                 calls = [Translate (5 / 2) 0, RotateDegrees 0, DrawImage ''blob:1'' (- 5 / 2) 0]\<rparr>
                 ''image/jpeg'' (92 / 100), width = 5, height = 0\<rparr>" 0 new_jsPDF]
  by (simp add: loadImageWithRotation_def accepts_all_def addImage_def new_jsPDF_def)

text \<open>
  The statement of C2 fails on a raster of 5 by 0: the ratio is \<^verbatim>\<open>Infinity\<close>, a rectangle
  comes out, and with a library that takes the call the document is saved.
\<close>

theorem layout_degenerate_counterexample:
  "imgRatio \<lparr>dataUrl = ToDataURL \<lparr>canvas_width = 5, canvas_height = 0,
                 calls = [Translate (5 / 2) 0, RotateDegrees 0, DrawImage ''blob:1'' (- 5 / 2) 0]\<rparr>
                 ''image/jpeg'' (92 / 100), width = 5, height = 0\<rparr> = PosInf
   \<and> fst (generatePDF \<lparr>decode = [''blob:1'' \<mapsto> (5, 0)], accepts = accepts_all\<rparr>
       \<lparr>images =
          [\<lparr>id' = ''a'', file' = \<lparr>file_type = ''image/svg+xml'', file_name = ''flat.svg''\<rparr>,
             url = ''blob:1'', rotation = 0, name = ''flat.svg''\<rparr>],
        filename = js_string ''flat'', isGenerating = False\<rparr>)
     = Saved (js_string ''flat.pdf'')
         [[\<lparr>image = ToDataURL \<lparr>canvas_width = 5, canvas_height = 0,
                 calls = [Translate (5 / 2) 0, RotateDegrees 0, DrawImage ''blob:1'' (- 5 / 2) 0]\<rparr>
                 ''image/jpeg'' (92 / 100),
             format = ''JPEG'',
             rect = \<lparr>xpos = Fin 10, ypos = Fin (297 / 2),
                      finalWidth = Fin 190, finalHeight = Fin 0\<rparr>\<rparr>]]"
  by (simp add: generatePDF_def loadImageWithRotation_def accepts_all_def addImage_def
      new_jsPDF_def layout_def imgRatio_def page_consts pageWidth_def pageHeight_def Let_def
      sanitizedFilename_def js_string_def trim_def js_whitespace_def in_class_def)

subsection \<open>Assembling the document\<close>

text \<open>
  C8. With an empty list \<open>generatePDF\<close> returns at once: no document is made, nothing is
  saved, no alert is shown and the state, \<^verbatim>\<open>isGenerating\<close> included, is as before.
\<close>

theorem generatePDF_empty:
  "images st = [] \<longrightarrow> generatePDF env st = (Returned, st)"
  by (simp add: generatePDF_def)

theorem generatePDF_empty_witness:
  "images \<lparr>images = [], filename = js_string ''my-document'', isGenerating = False\<rparr> = []
   \<and> generatePDF \<lparr>decode = Map.empty, accepts = accepts_all\<rparr>
       \<lparr>images = [], filename = js_string ''my-document'', isGenerating = False\<rparr>
     = (Returned, \<lparr>images = [], filename = js_string ''my-document'', isGenerating = False\<rparr>)"
  using generatePDF_empty
    [of "\<lparr>images = [], filename = js_string ''my-document'', isGenerating = False\<rparr>"
        "\<lparr>decode = Map.empty, accepts = accepts_all\<rparr>"]
  by simp

lemma add_pages_undecodable:
  "\<exists>e \<in> set es. decode env (url e) = None \<Longrightarrow>
   add_pages env i es doc = NeverSettles \<or> add_pages env i es doc = Thrown"
proof (induction es arbitrary: i doc)
  case Nil
  then show ?case by simp
next
  case (Cons e es)
  show ?case
  proof (cases "decode env (url e)")
    case None
    then show ?thesis
      by (simp add: loadImageWithRotation_def)
  next
    case (Some wh)
    with Cons.prems have later: "\<exists>e \<in> set es. decode env (url e) = None"
      by auto
    obtain d where d: "loadImageWithRotation (decode env) e = Resolved d"
      using Some by (cases wh) (simp add: loadImageWithRotation_def Let_def)
    show ?thesis
      using d Cons.IH [OF later] by (simp add: Let_def)
  qed
qed

text \<open>
  An export over a list with an entry that does not decode never saves a document and
  leaves the list and the file name alone; it ends in the alert only when the library
  throws on an earlier page, and otherwise does not end.
\<close>

lemma generatePDF_undecodable:
  assumes "\<exists>e \<in> set (images st). decode env (url e) = None"
  shows "(fst (generatePDF env st) = Pending \<or> fst (generatePDF env st) = Alerted)
         \<and> images (snd (generatePDF env st)) = images st
         \<and> filename (snd (generatePDF env st)) = filename st"
proof -
  from assms have ne: "length (images st) \<noteq> 0"
    by auto
  from assms have "add_pages env 0 (images st) new_jsPDF = NeverSettles
      \<or> add_pages env 0 (images st) new_jsPDF = Thrown"
    by (rule add_pages_undecodable)
  then show ?thesis
    using ne by (auto simp: generatePDF_def Let_def)
qed

text \<open>
  C3 on a list of one entry whose source does not decode: the promise is never settled, so
  the export neither reaches the alert nor the \<^verbatim>\<open>finally\<close> block. No failure is signalled
  and \<^verbatim>\<open>isGenerating\<close> stays set; the list is unchanged and nothing is saved.
\<close>

theorem generatePDF_decode_failure_pending:
  "generatePDF \<lparr>decode = Map.empty, accepts = accepts_all\<rparr>
     \<lparr>images =
        [\<lparr>id' = ''a'', file' = \<lparr>file_type = ''image/png'', file_name = ''broken.png''\<rparr>,
           url = ''blob:1'', rotation = 0, name = ''broken.png''\<rparr>],
      filename = js_string ''my-document'', isGenerating = False\<rparr>
   = (Pending,
      \<lparr>images =
        [\<lparr>id' = ''a'', file' = \<lparr>file_type = ''image/png'', file_name = ''broken.png''\<rparr>,
           url = ''blob:1'', rotation = 0, name = ''broken.png''\<rparr>],
      filename = js_string ''my-document'', isGenerating = True\<rparr>)"
  by (simp add: generatePDF_def loadImageWithRotation_def)

subsection \<open>The file name\<close>

lemma replace_g_map: "replace_g s = map (\<lambda>c. if in_class c then c else 95) s"
  by (induction s) simp_all

lemma dropWhile_split: "\<exists>pre. s = pre @ dropWhile P s \<and> list_all P pre"
proof
  show "s = takeWhile P s @ dropWhile P s \<and> list_all P (takeWhile P s)"
    by (auto simp: list_all_iff dest: set_takeWhileD)
qed

lemma trim_split:
  "\<exists>pre suf. s = pre @ trim s @ suf \<and> list_all js_whitespace pre \<and> list_all js_whitespace suf"
proof -
  let ?t = "dropWhile js_whitespace s"
  obtain pre where pre: "s = pre @ ?t" "list_all js_whitespace pre"
    using dropWhile_split by blast
  obtain q where q: "rev ?t = q @ dropWhile js_whitespace (rev ?t)" "list_all js_whitespace q"
    using dropWhile_split by blast
  from q(1) have "?t = trim s @ rev q"
    by (metis trim_def rev_append rev_rev_ident)
  with pre q(2) show ?thesis
    by (metis list_all_rev)
qed

lemma last_dropWhile: "dropWhile P xs \<noteq> [] \<Longrightarrow> last (dropWhile P xs) = last xs"
  by (metis last_appendR takeWhile_dropWhile_id)

lemma trim_ends:
  assumes "trim s \<noteq> []"
  shows "\<not> js_whitespace (hd (trim s)) \<and> \<not> js_whitespace (last (trim s))"
proof -
  let ?t = "dropWhile js_whitespace s"
  let ?r = "dropWhile js_whitespace (rev ?t)"
  have r: "?r \<noteq> []"
    using assms by (simp add: trim_def)
  then have "\<not> js_whitespace (hd ?r)"
    by (rule hd_dropWhile)
  then have l: "\<not> js_whitespace (last (trim s))"
    using r by (simp add: trim_def last_rev)
  have t: "?t \<noteq> []"
    using r by (metis dropWhile.simps(1) rev.simps(1))
  then have h: "\<not> js_whitespace (hd ?t)"
    by (rule hd_dropWhile)
  have "hd (trim s) = last ?r"
    using r by (simp add: trim_def hd_rev)
  also have "\<dots> = last (rev ?t)"
    using r by (rule last_dropWhile)
  also have "\<dots> = hd ?t"
    using t by (simp add: last_rev)
  finally show ?thesis
    using h l by simp
qed

text \<open>
  C9. The file name is cut down to \<open>trim filename\<close>: the name is that part between a prefix
  and a suffix made of white space only, and the part itself neither starts nor ends with
  white space. Every code unit of it outside \<^verbatim>\<open>a-z\<close>, \<^verbatim>\<open>A-Z\<close>, \<^verbatim>\<open>0-9\<close>, \<^verbatim>\<open>-\<close> and \<^verbatim>\<open>_\<close> is
  replaced by \<^verbatim>\<open>_\<close>, the others stay, and an empty result is replaced by \<^verbatim>\<open>document\<close>.
  \<^verbatim>\<open>My Doc!! 2024\<close> becomes \<^verbatim>\<open>My_Doc___2024\<close>.
\<close>

theorem sanitizedFilename_spec:
  "sanitizedFilename f =
     (if trim f = [] then js_string ''document''
      else map (\<lambda>c. if in_class c then c else of_char CHR ''_'') (trim f))
   \<and> (\<exists>pre suf. f = pre @ trim f @ suf
         \<and> list_all js_whitespace pre \<and> list_all js_whitespace suf)
   \<and> (trim f \<noteq> [] \<longrightarrow> \<not> js_whitespace (hd (trim f)) \<and> \<not> js_whitespace (last (trim f)))
   \<and> (in_class c \<longleftrightarrow>
         (of_char CHR ''a'' \<le> c \<and> c \<le> of_char CHR ''z'')
         \<or> (of_char CHR ''A'' \<le> c \<and> c \<le> of_char CHR ''Z'')
         \<or> (of_char CHR ''0'' \<le> c \<and> c \<le> of_char CHR ''9'')
         \<or> c = of_char CHR ''-'' \<or> c = of_char CHR ''_'')
   \<and> sanitizedFilename (js_string ''My Doc!! 2024'') = js_string ''My_Doc___2024''"
proof (intro conjI)
  show "sanitizedFilename f =
     (if trim f = [] then js_string ''document''
      else map (\<lambda>c. if in_class c then c else of_char CHR ''_'') (trim f))"
    by (simp add: sanitizedFilename_def replace_g_map)
  show "\<exists>pre suf. f = pre @ trim f @ suf
         \<and> list_all js_whitespace pre \<and> list_all js_whitespace suf"
    by (rule trim_split)
  show "trim f \<noteq> [] \<longrightarrow> \<not> js_whitespace (hd (trim f)) \<and> \<not> js_whitespace (last (trim f))"
    using trim_ends by blast
  show "in_class c \<longleftrightarrow>
         (of_char CHR ''a'' \<le> c \<and> c \<le> of_char CHR ''z'')
         \<or> (of_char CHR ''A'' \<le> c \<and> c \<le> of_char CHR ''Z'')
         \<or> (of_char CHR ''0'' \<le> c \<and> c \<le> of_char CHR ''9'')
         \<or> c = of_char CHR ''-'' \<or> c = of_char CHR ''_''"
    by (simp add: in_class_def)
  show "sanitizedFilename (js_string ''My Doc!! 2024'') = js_string ''My_Doc___2024''"
    by (simp add: sanitizedFilename_def js_string_def trim_def js_whitespace_def in_class_def)
qed

theorem sanitizedFilename_spec_witness:
  "trim (js_string '' a.b  '') \<noteq> []
   \<and> sanitizedFilename (js_string '' a.b  '') = js_string ''a_b''
   \<and> sanitizedFilename (js_string ''   '') = js_string ''document''"
  using sanitizedFilename_spec [of "js_string '' a.b  ''"]
    sanitizedFilename_spec [of "js_string ''   ''"]
  by (simp add: js_string_def trim_def js_whitespace_def in_class_def)

end
